theory Spec2Isabelle
  imports Main "HOL-Library.AList"
begin

section \<open>Python values used by the CSV argument reconciliation\<close>

text \<open>
  The development embeds the argument reconciliation that \<open>read_csv\<close> and
  \<open>read_csv_batched\<close> of \<open>polars/io/csv/functions.py\<close> perform between the call of
  \<open>handle_projection_columns\<close> and the call of the native reader. The pair
  \<open>(projection, columns)\<close> returned by \<open>handle_projection_columns\<close> (module
  \<open>polars.utils.various\<close>) is taken as an input of the model, as are \<open>has_header\<close>,
  \<open>new_columns\<close> and \<open>dtypes\<close>. For \<open>read_csv\<close> the model follows the path on which the
  pyarrow shortcut (lines 203-269) is not taken.
\<close>

text \<open>The exceptions that the modelled statements can raise, with their message.\<close>

datatype py_error = ValueError string | IndexError string

text \<open>
  Data types of \<open>polars.datatypes\<close>. Only \<open>Utf8\<close> is named by the modelled code; the
  other constructors stand for the data types a caller may pass.
\<close>

datatype PolarsDataType = Utf8 | Int64 | Float64 | Boolean

text \<open>
  The \<open>dtypes\<close> argument: \<open>None\<close>, a \<open>list\<close>, or a \<open>dict\<close>. A dict is an association
  list in insertion order; a Python dict has pairwise distinct keys.
\<close>

datatype dtypes_arg =
    DtNone
  | DtList "PolarsDataType list"
  | DtDict "(string \<times> PolarsDataType) list"

text \<open>What is handed to the native reader as \<open>columns=columns if columns else projection\<close>.\<close>

datatype columns_arg = NoColumns | Indices "int list" | Names "string list"

record reader_args =
  arg_columns :: columns_arg
  arg_dtypes :: dtypes_arg

subsection \<open>Truthiness and type tests\<close>

fun truthy :: "'a list option \<Rightarrow> bool" where
  "truthy None = False"
| "truthy (Some xs) = (xs \<noteq> [])"

fun truthy_dtypes :: "dtypes_arg \<Rightarrow> bool" where
  "truthy_dtypes DtNone = False"
| "truthy_dtypes (DtList ds) = (ds \<noteq> [])"
| "truthy_dtypes (DtDict d) = (d \<noteq> [])"

fun the_list :: "'a list option \<Rightarrow> 'a list" where
  "the_list None = []"
| "the_list (Some xs) = xs"

subsection \<open>Strings\<close>

definition startswith :: "string \<Rightarrow> string \<Rightarrow> bool" where
  "startswith s p = (take (length p) s = p)"

definition digit_char :: "nat \<Rightarrow> char" where
  "digit_char n = ''0123456789'' ! n"

fun str_of_nat :: "nat \<Rightarrow> string" where
  "str_of_nat n =
     (if n < 10 then [digit_char n] else str_of_nat (n div 10) @ [digit_char (n mod 10)])"

declare str_of_nat.simps [simp del]

text \<open>The decimal text that an f-string produces for a Python int.\<close>

definition py_str :: "int \<Rightarrow> string" where
  "py_str i = (if i < 0 then ''-'' @ str_of_nat (nat (- i)) else str_of_nat (nat i))"

subsection \<open>Lists and dicts\<close>

text \<open>\<open>max(xs)\<close> for a non-empty list.\<close>

fun py_max :: "int list \<Rightarrow> int" where
  "py_max [] = 0"
| "py_max (x # xs) = fold max xs x"

text \<open>\<open>[v] * n\<close>: empty when \<open>n\<close> is not positive.\<close>

definition list_times :: "'a \<Rightarrow> int \<Rightarrow> 'a list" where
  "list_times v n = replicate (nat n) v"

text \<open>\<open>xs[i] = v\<close>: a negative index counts from the end, an index out of range raises.\<close>

definition list_setitem :: "'a list \<Rightarrow> int \<Rightarrow> 'a \<Rightarrow> py_error + 'a list" where
  "list_setitem xs i v =
     (if 0 \<le> i \<and> i < int (length xs) then Inr (xs[nat i := v])
      else if i < 0 \<and> - int (length xs) \<le> i then Inr (xs[nat (int (length xs) + i) := v])
      else Inl (IndexError ''list assignment index out of range''))"

text \<open>
  \<open>dict(pairs)\<close> and a dict comprehension: the pairs are inserted from left to right; a
  key that is already present keeps its place and takes the new value.
\<close>

definition py_dict :: "('k \<times> 'v) list \<Rightarrow> ('k \<times> 'v) list" where
  "py_dict ps = fold (\<lambda>(k, v) d. AList.update k v d) ps []"

text \<open>\<open>d.get(k, k)\<close> on a dict from strings to strings.\<close>

definition dict_get_or_key :: "(string \<times> string) list \<Rightarrow> string \<Rightarrow> string" where
  "dict_get_or_key d k = (case map_of d k of Some c \<Rightarrow> c | None \<Rightarrow> k)"

section \<open>The reconciliation of \<open>read_csv\<close>\<close>

subsection \<open>Lines 195-201: autogenerated header names\<close>

definition msg_not_autogenerated :: string where
  "msg_not_autogenerated =
     ''specified column names do not start with 'column_','' @
     '' but autogenerated header names were requested''"

fun check_column_names :: "string list \<Rightarrow> py_error + unit" where
  "check_column_names [] = Inr ()"
| "check_column_names (column # rest) =
     (if \<not> startswith column ''column_'' then Inl (ValueError msg_not_autogenerated)
      else check_column_names rest)"

definition check_autogenerated :: "bool \<Rightarrow> string list option \<Rightarrow> py_error + unit" where
  "check_autogenerated has_header columns =
     (if truthy columns \<and> \<not> has_header then check_column_names (the_list columns)
      else Inr ())"

subsection \<open>Lines 271-285: a list of dtypes together with a projection\<close>

definition msg_more_dtypes :: string where
  "msg_more_dtypes =
     ''more dtypes overrides are specified than there are selected columns''"

text \<open>
  The loop \<open>for idx, column_idx in enumerate(projection)\<close>; \<open>idx\<close> is the position of
  the head of the remaining projection.
\<close>

fun assign_dtypes ::
  "nat \<Rightarrow> int list \<Rightarrow> PolarsDataType list \<Rightarrow> PolarsDataType list
     \<Rightarrow> py_error + PolarsDataType list" where
  "assign_dtypes idx [] dtypes dtypes_list = Inr dtypes_list"
| "assign_dtypes idx (column_idx # rest) dtypes dtypes_list =
     (if idx < length dtypes then
        (case list_setitem dtypes_list column_idx (dtypes ! idx) of
           Inl e \<Rightarrow> Inl e
         | Inr dtypes_list' \<Rightarrow> assign_dtypes (Suc idx) rest dtypes dtypes_list')
      else assign_dtypes (Suc idx) rest dtypes dtypes_list)"

definition projection_dtypes :: "int list option \<Rightarrow> dtypes_arg \<Rightarrow> py_error + dtypes_arg" where
  "projection_dtypes projection dtypes =
     (case dtypes of
        DtList ds \<Rightarrow>
          if truthy projection \<and> truthy_dtypes dtypes then
            (if length (the_list projection) < length ds
             then Inl (ValueError msg_more_dtypes)
             else
               (case assign_dtypes 0 (the_list projection) ds
                       (list_times Utf8 (py_max (the_list projection) + 1)) of
                  Inl e \<Rightarrow> Inl e
                | Inr dtypes_list \<Rightarrow> Inr (DtList dtypes_list)))
          else Inr dtypes
      | _ \<Rightarrow> Inr dtypes)"

subsection \<open>Lines 287-296: a list of dtypes together with selected names\<close>

definition columns_dtypes :: "string list option \<Rightarrow> dtypes_arg \<Rightarrow> py_error + dtypes_arg" where
  "columns_dtypes columns dtypes =
     (case dtypes of
        DtList ds \<Rightarrow>
          if truthy columns \<and> truthy_dtypes dtypes then
            (if length (the_list columns) < length ds
             then Inl (ValueError msg_more_dtypes)
             else Inr (DtDict (py_dict (zip (the_list columns) ds))))
          else Inr dtypes
      | _ \<Rightarrow> Inr dtypes)"

subsection \<open>Lines 298-357: new column names together with a dict of dtypes\<close>

definition msg_more_new_columns :: string where
  "msg_more_new_columns =
     ''more new column names are specified than there are selected'' @ '' columns''"

text \<open>
  Lines 337-349, header present: the list comprehension over
  \<open>new_columns[0 : len(dtypes)]\<close> and the replacement of \<open>dtypes\<close> by \<open>dtype_list\<close>.
\<close>

definition header_dtype_list ::
  "string list \<Rightarrow> (string \<times> PolarsDataType) list \<Rightarrow> dtypes_arg" where
  "header_dtype_list new_columns d =
     (if length d \<le> length new_columns then
        (let dtype_list = List.map_filter (map_of d) (take (length d) new_columns)
         in if length dtype_list = length d then DtList dtype_list else DtDict d)
      else DtDict d)"

text \<open>
  Lines 299-349: the value of \<open>current_columns\<close> and of \<open>dtypes\<close> after the
  \<open>if / elif / else\<close> chain. The check at lines 317-321 is kept as it is written.
\<close>

definition current_columns_of ::
  "bool \<Rightarrow> int list option \<Rightarrow> string list option \<Rightarrow> string list
     \<Rightarrow> (string \<times> PolarsDataType) list
     \<Rightarrow> py_error + (string list option \<times> dtypes_arg)" where
  "current_columns_of has_header projection columns new_columns d =
     (if truthy columns then
        (if length (the_list columns) < length new_columns
         then Inl (ValueError msg_more_new_columns)
         else Inr (Some (take (length new_columns) (the_list columns)), DtDict d))
      else if \<not> has_header then
        (if truthy projection then
           (if truthy columns \<and> length (the_list columns) < length new_columns
            then Inl (ValueError msg_more_new_columns)
            else Inr (Some (map (\<lambda>column_idx. ''column_'' @ py_str (column_idx + 1))
                              (the_list projection)), DtDict d))
         else Inr (Some (map (\<lambda>column_idx. ''column_'' @ py_str (int column_idx))
                           [1 ..< length new_columns + 1]), DtDict d))
      else Inr (None, header_dtype_list new_columns d))"

text \<open>Lines 351-357: the dict comprehension over \<open>dtypes.items()\<close>.\<close>

definition rename_keys ::
  "string list \<Rightarrow> string list \<Rightarrow> (string \<times> PolarsDataType) list
     \<Rightarrow> (string \<times> PolarsDataType) list" where
  "rename_keys new_columns current_columns d =
     (let new_to_current = py_dict (zip new_columns current_columns)
      in py_dict (map (\<lambda>(column_name, column_dtype).
                         (dict_get_or_key new_to_current column_name, column_dtype)) d))"

definition new_columns_dtypes ::
  "bool \<Rightarrow> int list option \<Rightarrow> string list option \<Rightarrow> string list option \<Rightarrow> dtypes_arg
     \<Rightarrow> py_error + dtypes_arg" where
  "new_columns_dtypes has_header projection columns new_columns dtypes =
     (case dtypes of
        DtDict d \<Rightarrow>
          if truthy new_columns \<and> truthy_dtypes dtypes then
            (case current_columns_of has_header projection columns (the_list new_columns) d of
               Inl e \<Rightarrow> Inl e
             | Inr (current_columns, dtypes') \<Rightarrow>
                 (case dtypes' of
                    DtDict d' \<Rightarrow>
                      if truthy current_columns
                      then Inr (DtDict (rename_keys (the_list new_columns)
                                          (the_list current_columns) d'))
                      else Inr dtypes'
                  | _ \<Rightarrow> Inr dtypes'))
          else Inr dtypes
      | _ \<Rightarrow> Inr dtypes)"

subsection \<open>The whole reconciliation, up to the call of the native reader\<close>

definition columns_or_projection :: "int list option \<Rightarrow> string list option \<Rightarrow> columns_arg" where
  "columns_or_projection projection columns =
     (if truthy columns then Names (the_list columns)
      else (case projection of None \<Rightarrow> NoColumns | Some p \<Rightarrow> Indices p))"

definition read_csv ::
  "bool \<Rightarrow> int list option \<Rightarrow> string list option \<Rightarrow> string list option \<Rightarrow> dtypes_arg
     \<Rightarrow> py_error + reader_args" where
  "read_csv has_header projection columns new_columns dtypes =
     (case check_autogenerated has_header columns of
        Inl e \<Rightarrow> Inl e
      | Inr _ \<Rightarrow>
     (case projection_dtypes projection dtypes of
        Inl e \<Rightarrow> Inl e
      | Inr dtypes1 \<Rightarrow>
     (case columns_dtypes columns dtypes1 of
        Inl e \<Rightarrow> Inl e
      | Inr dtypes2 \<Rightarrow>
     (case new_columns_dtypes has_header projection columns new_columns dtypes2 of
        Inl e \<Rightarrow> Inl e
      | Inr dtypes3 \<Rightarrow>
          Inr \<lparr>arg_columns = columns_or_projection projection columns,
               arg_dtypes = dtypes3\<rparr>))))"

section \<open>The reconciliation of \<open>read_csv_batched\<close>\<close>

text \<open>
  Lines 571-665 of the same file, translated on their own: the statements are those of
  \<open>read_csv\<close>, written a second time in the source. Truthiness of a list is rendered
  here by the pattern of a non-empty list, the loops by list combinators.
\<close>

definition batched_msg_not_autogenerated :: string where
  "batched_msg_not_autogenerated =
     ''specified column names do not start with 'column_','' @
     '' but autogenerated header names were requested''"

definition batched_msg_more_dtypes :: string where
  "batched_msg_more_dtypes =
     ''more dtypes overrides are specified than there are selected columns''"

definition batched_msg_more_new_columns :: string where
  "batched_msg_more_new_columns =
     ''more new column names are specified than there are selected columns''"

text \<open>Lines 573-579.\<close>

fun batched_check_autogenerated :: "bool \<Rightarrow> string list option \<Rightarrow> py_error + unit" where
  "batched_check_autogenerated False (Some (c # cs)) =
     (if list_all (\<lambda>column. startswith column ''column_'') (c # cs) then Inr ()
      else Inl (ValueError batched_msg_not_autogenerated))"
| "batched_check_autogenerated has_header columns = Inr ()"

text \<open>Lines 581-595.\<close>

definition batched_assign_step ::
  "PolarsDataType list \<Rightarrow> nat \<times> int \<Rightarrow> py_error + PolarsDataType list
     \<Rightarrow> py_error + PolarsDataType list" where
  "batched_assign_step dtypes = (\<lambda>(idx, column_idx) acc.
     (case acc of
        Inl e \<Rightarrow> Inl e
      | Inr dtypes_list \<Rightarrow>
          if idx < length dtypes then list_setitem dtypes_list column_idx (dtypes ! idx)
          else Inr dtypes_list))"

fun batched_projection_dtypes :: "int list option \<Rightarrow> dtypes_arg \<Rightarrow> py_error + dtypes_arg" where
  "batched_projection_dtypes (Some (p # ps)) (DtList (t # ts)) =
     (if length (p # ps) < length (t # ts) then Inl (ValueError batched_msg_more_dtypes)
      else
        (case fold (batched_assign_step (t # ts)) (enumerate 0 (p # ps))
                (Inr (list_times Utf8 (py_max (p # ps) + 1))) of
           Inl e \<Rightarrow> Inl e
         | Inr dtypes_list \<Rightarrow> Inr (DtList dtypes_list)))"
| "batched_projection_dtypes projection dtypes = Inr dtypes"

text \<open>Lines 597-606.\<close>

fun batched_columns_dtypes :: "string list option \<Rightarrow> dtypes_arg \<Rightarrow> py_error + dtypes_arg" where
  "batched_columns_dtypes (Some (c # cs)) (DtList (t # ts)) =
     (if length (c # cs) < length (t # ts) then Inl (ValueError batched_msg_more_dtypes)
      else Inr (DtDict (py_dict (zip (c # cs) (t # ts)))))"
| "batched_columns_dtypes columns dtypes = Inr dtypes"

text \<open>Lines 659-665, with the test \<open>if current_columns\<close>.\<close>

definition batched_rename ::
  "string list \<Rightarrow> string list \<Rightarrow> (string \<times> PolarsDataType) list \<Rightarrow> dtypes_arg" where
  "batched_rename new_columns current_columns d =
     (if current_columns \<noteq> [] then
        DtDict (py_dict (map (\<lambda>(column_name, column_dtype).
                  (case map_of (py_dict (zip new_columns current_columns)) column_name of
                     Some current \<Rightarrow> current
                   | None \<Rightarrow> column_name,
                   column_dtype)) d))
      else DtDict d)"

text \<open>Lines 608-665.\<close>

fun batched_new_columns_dtypes ::
  "bool \<Rightarrow> int list option \<Rightarrow> string list option \<Rightarrow> string list option \<Rightarrow> dtypes_arg
     \<Rightarrow> py_error + dtypes_arg" where
  "batched_new_columns_dtypes has_header projection (Some (c # cs)) (Some (n # ns))
       (DtDict (e # es)) =
     (if length (c # cs) < length (n # ns) then Inl (ValueError batched_msg_more_new_columns)
      else Inr (batched_rename (n # ns) (take (length (n # ns)) (c # cs)) (e # es)))"
| "batched_new_columns_dtypes False (Some (p # ps)) columns (Some (n # ns))
       (DtDict (e # es)) =
     (if truthy columns \<and> length (the_list columns) < length (n # ns)
      then Inl (ValueError batched_msg_more_new_columns)
      else Inr (batched_rename (n # ns)
                  (map (\<lambda>column_idx. ''column_'' @ py_str (column_idx + 1)) (p # ps))
                  (e # es)))"
| "batched_new_columns_dtypes False projection columns (Some (n # ns)) (DtDict (e # es)) =
     Inr (batched_rename (n # ns)
            (map (\<lambda>column_idx. ''column_'' @ py_str (int column_idx))
               [1 ..< length (n # ns) + 1])
            (e # es))"
| "batched_new_columns_dtypes True projection columns (Some (n # ns)) (DtDict (e # es)) =
     (if length (e # es) \<le> length (n # ns) then
        (let dtype_list =
               map (\<lambda>new_column_name. the (map_of (e # es) new_column_name))
                 (filter (\<lambda>new_column_name. new_column_name \<in> fst ` set (e # es))
                    (take (length (e # es)) (n # ns)))
         in if length dtype_list = length (e # es) then Inr (DtList dtype_list)
            else Inr (DtDict (e # es)))
      else Inr (DtDict (e # es)))"
| "batched_new_columns_dtypes has_header projection columns new_columns dtypes = Inr dtypes"

text \<open>Lines 571-675.\<close>

definition read_csv_batched ::
  "bool \<Rightarrow> int list option \<Rightarrow> string list option \<Rightarrow> string list option \<Rightarrow> dtypes_arg
     \<Rightarrow> py_error + reader_args" where
  "read_csv_batched has_header projection columns new_columns dtypes =
     (case batched_check_autogenerated has_header columns of
        Inl e \<Rightarrow> Inl e
      | Inr _ \<Rightarrow>
     (case batched_projection_dtypes projection dtypes of
        Inl e \<Rightarrow> Inl e
      | Inr dtypes1 \<Rightarrow>
     (case batched_columns_dtypes columns dtypes1 of
        Inl e \<Rightarrow> Inl e
      | Inr dtypes2 \<Rightarrow>
     (case batched_new_columns_dtypes has_header projection columns new_columns dtypes2 of
        Inl e \<Rightarrow> Inl e
      | Inr dtypes3 \<Rightarrow>
          Inr \<lparr>arg_columns =
                 (case columns of
                    Some (c # cs) \<Rightarrow> Names (c # cs)
                  | _ \<Rightarrow> (case projection of Some p \<Rightarrow> Indices p | None \<Rightarrow> NoColumns)),
               arg_dtypes = dtypes3\<rparr>))))"

section \<open>Notions used to state the properties\<close>

text \<open>The position of the last occurrence of a name in a list of names.\<close>

fun last_position :: "'a list \<Rightarrow> 'a \<Rightarrow> nat option" where
  "last_position [] k = None"
| "last_position (n # ns) k =
     (case last_position ns k of
        Some i \<Rightarrow> Some (Suc i)
      | None \<Rightarrow> if n = k then Some 0 else None)"

text \<open>
  The original name of a dtype key: the current column at the position where the key
  occurs in the new names, the key itself when it is not a new name.
\<close>

definition original_name :: "string list \<Rightarrow> string list \<Rightarrow> string \<Rightarrow> string" where
  "original_name new_names current_names k =
     (case last_position new_names k of Some i \<Rightarrow> current_names ! i | None \<Rightarrow> k)"

text \<open>
  The pattern \<open>column_<positive integer>\<close> of the specification: the prefix, then a
  non-empty run of decimal digits that are not all zero.
\<close>

definition is_synthesized_name :: "string \<Rightarrow> bool" where
  "is_synthesized_name s =
     (startswith s ''column_'' \<and> drop 7 s \<noteq> [] \<and>
      list_all (\<lambda>c. c \<in> set ''0123456789'') (drop 7 s) \<and>
      list_ex (\<lambda>c. c \<noteq> CHR ''0'') (drop 7 s))"

section \<open>The two call sites agree\<close>

lemma msgs_agree:
  "batched_msg_not_autogenerated = msg_not_autogenerated"
  "batched_msg_more_dtypes = msg_more_dtypes"
  "batched_msg_more_new_columns = msg_more_new_columns"
  by (simp_all add: batched_msg_not_autogenerated_def msg_not_autogenerated_def
      batched_msg_more_dtypes_def msg_more_dtypes_def
      batched_msg_more_new_columns_def msg_more_new_columns_def)

lemma check_column_names_list_all:
  "check_column_names cs =
     (if list_all (\<lambda>column. startswith column ''column_'') cs then Inr ()
      else Inl (ValueError msg_not_autogenerated))"
  by (induction cs) simp_all

lemma batched_check_agrees:
  "batched_check_autogenerated has_header columns = check_autogenerated has_header columns"
proof (cases columns)
  case None
  then show ?thesis by (cases has_header) (simp_all add: check_autogenerated_def)
next
  case (Some cs)
  then show ?thesis
    by (cases has_header; cases cs)
       (simp_all add: check_autogenerated_def check_column_names_list_all msgs_agree
          del: check_column_names.simps)
qed

lemma batched_assign_step_simps:
  "batched_assign_step ds (idx, c) (Inl e) = Inl e"
  "batched_assign_step ds (idx, c) (Inr dl) =
     (if idx < length ds then list_setitem dl c (ds ! idx) else Inr dl)"
  by (simp_all add: batched_assign_step_def)

lemma fold_assign_step_Inl:
  "fold (batched_assign_step ds) ps (Inl e) = Inl e"
proof (induction ps)
  case Nil
  then show ?case by simp
next
  case (Cons q ps)
  then show ?case by (cases q) (simp add: batched_assign_step_simps)
qed

lemma fold_assign_step:
  "fold (batched_assign_step ds) (enumerate i p) (Inr dl) = assign_dtypes i p ds dl"
proof (induction p arbitrary: i dl)
  case Nil
  then show ?case by simp
next
  case (Cons c p)
  show ?case
  proof (cases "i < length ds")
    case True
    then show ?thesis
      using Cons.IH [of "Suc i"]
      by (cases "list_setitem dl c (ds ! i)")
         (simp_all add: batched_assign_step_simps fold_assign_step_Inl)
  next
    case False
    then show ?thesis
      using Cons.IH [of "Suc i" dl] by (simp add: batched_assign_step_simps)
  qed
qed

lemma batched_projection_agrees:
  "batched_projection_dtypes projection dtypes = projection_dtypes projection dtypes"
proof (cases "\<exists>p ps t ts. projection = Some (p # ps) \<and> dtypes = DtList (t # ts)")
  case True
  then obtain p ps t ts where "projection = Some (p # ps)" "dtypes = DtList (t # ts)"
    by blast
  moreover have "batched_projection_dtypes (Some (p # ps)) (DtList (t # ts)) =
      projection_dtypes (Some (p # ps)) (DtList (t # ts))"
    by (simp only: batched_projection_dtypes.simps fold_assign_step)
       (simp add: projection_dtypes_def msgs_agree del: assign_dtypes.simps py_max.simps)
  ultimately show ?thesis by simp
next
  case False
  then have "batched_projection_dtypes projection dtypes = Inr dtypes"
    by (cases "(projection, dtypes)" rule: batched_projection_dtypes.cases) auto
  moreover from False have "projection_dtypes projection dtypes = Inr dtypes"
    by (cases projection; cases dtypes; cases "the_list projection")
       (auto simp: projection_dtypes_def neq_Nil_conv)
  ultimately show ?thesis by simp
qed

lemma batched_columns_agrees:
  "batched_columns_dtypes columns dtypes = columns_dtypes columns dtypes"
proof (cases "\<exists>c cs t ts. columns = Some (c # cs) \<and> dtypes = DtList (t # ts)")
  case True
  then obtain c cs t ts where "columns = Some (c # cs)" "dtypes = DtList (t # ts)"
    by blast
  then show ?thesis
    by (simp add: columns_dtypes_def msgs_agree del: zip_Cons_Cons)
next
  case False
  then have "batched_columns_dtypes columns dtypes = Inr dtypes"
    by (cases "(columns, dtypes)" rule: batched_columns_dtypes.cases) auto
  moreover from False have "columns_dtypes columns dtypes = Inr dtypes"
    by (cases columns; cases dtypes; cases "the_list columns")
       (auto simp: columns_dtypes_def neq_Nil_conv)
  ultimately show ?thesis by simp
qed


lemma batched_rename_agrees:
  "batched_rename ns cs d = (if cs \<noteq> [] then DtDict (rename_keys ns cs d) else DtDict d)"
  by (simp add: batched_rename_def rename_keys_def dict_get_or_key_def)

lemma map_filter_map_of:
  "List.map_filter (map_of d) xs =
     map (\<lambda>n. the (map_of d n)) (filter (\<lambda>n. n \<in> fst ` set d) xs)"
  by (simp add: List.map_filter_def map_of_eq_None_iff comp_def)

lemma batched_new_columns_inactive:
  assumes "\<not> (\<exists>n ns e es. new_columns = Some (n # ns) \<and> dtypes = DtDict (e # es))"
  shows "batched_new_columns_dtypes has_header projection columns new_columns dtypes = Inr dtypes"
  using assms
  by (cases "(has_header, projection, columns, new_columns, dtypes)"
        rule: batched_new_columns_dtypes.cases) auto

lemma new_columns_inactive:
  assumes "\<not> (\<exists>n ns e es. new_columns = Some (n # ns) \<and> dtypes = DtDict (e # es))"
  shows "new_columns_dtypes has_header projection columns new_columns dtypes = Inr dtypes"
  using assms
  by (cases new_columns; cases dtypes; cases "the_list new_columns")
     (auto simp: new_columns_dtypes_def neq_Nil_conv)

lemma batched_new_columns_active:
  "batched_new_columns_dtypes has_header projection columns (Some (n # ns)) (DtDict (e # es)) =
   new_columns_dtypes has_header projection columns (Some (n # ns)) (DtDict (e # es))"
proof (cases "truthy columns")
  case True
  then obtain c cs where "columns = Some (c # cs)"
    by (cases columns; cases "the_list columns") auto
  then show ?thesis
    by (simp add: new_columns_dtypes_def current_columns_of_def batched_rename_agrees
          msgs_agree)
next
  case False
  then have col: "columns = None \<or> columns = Some []"
    by (cases columns) auto
  show ?thesis
  proof (cases has_header)
    case True
    have "batched_new_columns_dtypes True projection cols (Some (n # ns)) (DtDict (e # es)) =
          new_columns_dtypes True projection cols (Some (n # ns)) (DtDict (e # es))"
      if "cols = None \<or> cols = Some []" for cols
      using that
      apply (elim disjE)
       apply (simp_all only: batched_new_columns_dtypes.simps map_filter_map_of [symmetric])
       apply (simp_all add: new_columns_dtypes_def current_columns_of_def
                header_dtype_list_def Let_def)
      done
    with col True show ?thesis by simp
  next
    case nh: False
    show ?thesis
    proof (cases "truthy projection")
      case True
      then obtain p ps where "projection = Some (p # ps)"
        by (cases projection; cases "the_list projection") auto
      with nh col show ?thesis
        by (auto simp: new_columns_dtypes_def current_columns_of_def batched_rename_agrees)
    next
      case False
      then have "projection = None \<or> projection = Some []"
        by (cases projection) auto
      with nh col show ?thesis
        by (auto simp: new_columns_dtypes_def current_columns_of_def batched_rename_agrees
              simp del: upt_Suc)
    qed
  qed
qed

lemma batched_new_columns_agrees:
  "batched_new_columns_dtypes has_header projection columns new_columns dtypes =
   new_columns_dtypes has_header projection columns new_columns dtypes"
proof (cases "\<exists>n ns e es. new_columns = Some (n # ns) \<and> dtypes = DtDict (e # es)")
  case True
  then show ?thesis using batched_new_columns_active by blast
next
  case False
  then show ?thesis
    using batched_new_columns_inactive [OF False] new_columns_inactive [OF False]
    by simp
qed

lemma columns_arg_agrees:
  "(case columns of Some (c # cs) \<Rightarrow> Names (c # cs)
    | _ \<Rightarrow> (case projection of Some p \<Rightarrow> Indices p | None \<Rightarrow> NoColumns)) =
   columns_or_projection projection columns"
  by (simp add: columns_or_projection_def split: option.splits list.splits)

text \<open>
  Claim C9. For every \<open>has_header\<close>, \<open>projection\<close>, \<open>columns\<close>, \<open>new_columns\<close> and
  \<open>dtypes\<close>, the reconciliation of \<open>read_csv_batched\<close> and that of \<open>read_csv\<close> give the
  same outcome: the same exception with the same message, or the same \<open>columns\<close> and
  \<open>dtypes\<close> arguments for the native reader.
\<close>

theorem read_csv_batched_same_reconciliation:
  "read_csv_batched has_header projection columns new_columns dtypes =
   read_csv has_header projection columns new_columns dtypes"
  unfolding read_csv_batched_def read_csv_def
  by (simp only: batched_check_agrees batched_projection_agrees batched_columns_agrees
        batched_new_columns_agrees columns_arg_agrees)

section \<open>Dicts built from pairs\<close>

lemma update_fresh:
  "k \<notin> fst ` set al \<Longrightarrow> AList.update k v al = al @ [(k, v)]"
  by (induction al) auto

lemma fold_update_distinct:
  "distinct (map fst (acc @ ps)) \<Longrightarrow>
     fold (\<lambda>(k, v) d. AList.update k v d) ps acc = acc @ ps"
proof (induction ps arbitrary: acc)
  case Nil
  then show ?case by simp
next
  case (Cons p ps)
  obtain k v where p: "p = (k, v)" by (cases p)
  from Cons.prems p have fresh: "k \<notin> fst ` set acc" by auto
  from Cons.prems p have "distinct (map fst ((acc @ [(k, v)]) @ ps))" by simp
  from Cons.IH [OF this] show ?case
    by (simp add: p update_fresh [OF fresh])
qed

lemma py_dict_distinct: "distinct (map fst ps) \<Longrightarrow> py_dict ps = ps"
  using fold_update_distinct [of "[]" ps] by (simp add: py_dict_def)

lemma map_of_fold_update:
  "map_of (fold (\<lambda>(k, v) d. AList.update k v d) ps acc) = map_of acc ++ map_of (rev ps)"
proof (induction ps arbitrary: acc)
  case Nil
  then show ?case by simp
next
  case (Cons p ps)
  obtain k v where p: "p = (k, v)" by (cases p)
  have "map_of (AList.update k v acc) ++ map_of (rev ps) =
        map_of acc ++ (map_of (rev ps @ [(k, v)]))"
    by (simp add: update_conv' map_add_upd_left fun_eq_iff map_add_def split: option.splits)
  then show ?case by (simp add: p Cons.IH)
qed

lemma map_of_py_dict: "map_of (py_dict ps) = map_of (rev ps)"
  by (simp add: py_dict_def map_of_fold_update)

section \<open>Renaming the keys of a dict of dtypes\<close>

lemma last_position_less: "last_position ns k = Some i \<Longrightarrow> i < length ns"
  by (induction ns arbitrary: i) (auto split: option.splits if_splits)

lemma last_position_None: "last_position ns k = None \<longleftrightarrow> k \<notin> set ns"
  by (induction ns) (auto split: option.splits)

lemma last_position_nth: "last_position ns k = Some i \<Longrightarrow> ns ! i = k"
  by (induction ns arbitrary: i) (auto split: option.splits if_splits)

lemma map_of_rev_zip:
  "map_of (rev (zip ns cs)) k =
     map_option (\<lambda>i. cs ! i) (last_position (take (length cs) ns) k)"
proof (induction ns arbitrary: cs)
  case Nil
  then show ?case by simp
next
  case (Cons n ns)
  show ?case
  proof (cases cs)
    case Nil
    then show ?thesis by simp
  next
    case (Cons c cs')
    then show ?thesis
      using Cons.IH [of cs']
      by (auto simp: map_add_def split: option.splits)
  qed
qed

lemma dict_get_or_key_zip:
  "dict_get_or_key (py_dict (zip ns cs)) k = original_name (take (length cs) ns) cs k"
  by (simp add: dict_get_or_key_def original_name_def map_of_py_dict map_of_rev_zip
      split: option.splits)

lemma rename_keys_original_name:
  "rename_keys ns cs d =
     py_dict (map (\<lambda>(k, v). (original_name (take (length cs) ns) cs k, v)) d)"
  by (simp add: rename_keys_def dict_get_or_key_zip)

lemma original_name_take:
  "original_name ns (take (length ns) cs) k = original_name ns cs k"
  by (auto simp: original_name_def split: option.splits dest: last_position_less)

lemma original_name_Nil: "original_name [] cs k = k"
  by (simp add: original_name_def)

lemma check_autogenerated_ok:
  "has_header \<or> list_all (\<lambda>c. startswith c ''column_'') (the_list columns) \<Longrightarrow>
     check_autogenerated has_header columns = Inr ()"
  by (auto simp: check_autogenerated_def check_column_names_list_all)

lemma projection_dtypes_not_list:
  "projection_dtypes projection (DtDict d) = Inr (DtDict d)"
  "projection_dtypes projection DtNone = Inr DtNone"
  by (simp_all add: projection_dtypes_def)

lemma columns_dtypes_not_list:
  "columns_dtypes columns (DtDict d) = Inr (DtDict d)"
  "columns_dtypes columns DtNone = Inr DtNone"
  by (simp_all add: columns_dtypes_def)

lemma new_columns_dtypes_skip:
  "ns = [] \<or> d = [] \<Longrightarrow>
     new_columns_dtypes has_header projection columns (Some ns) (DtDict d) = Inr (DtDict d)"
  by (auto simp: new_columns_dtypes_def)

lemma new_columns_dtypes_by_name:
  assumes "length ns \<le> length cs" and "distinct (map fst d)"
  shows "new_columns_dtypes has_header projection (Some cs) (Some ns) (DtDict d) =
         Inr (DtDict (py_dict (map (\<lambda>(k, v). (original_name ns cs k, v)) d)))"
proof (cases "ns = [] \<or> d = []")
  case True
  have "map (\<lambda>(k, v). (original_name ns cs k, v)) d = d" if "ns = []"
    using that by (simp add: original_name_Nil)
  with True assms(2) show ?thesis
    by (auto simp: new_columns_dtypes_skip py_dict_distinct)
next
  case False
  with assms(1) have "cs \<noteq> []" by auto
  with False assms(1) show ?thesis
    by (simp add: new_columns_dtypes_def current_columns_of_def
          rename_keys_original_name original_name_take)
qed

text \<open>
  Claim C3. For a selection by name (\<open>columns\<close> non-empty; without a header its names
  start with \<open>column_\<close>, as lines 195-201 require of every such selection), a dict
  \<open>dtypes\<close> and \<open>new_columns\<close> not longer than \<open>columns\<close>, the reconciliation raises
  nothing and the dict handed to the reader is the one built from the items of \<open>dtypes\<close>
  in order, each key that occurs in \<open>new_columns\<close> replaced by the selected name at the
  position of its (last) occurrence, every other key kept.
\<close>

theorem by_name_keyed_dtypes_renamed:
  assumes "has_header \<or> list_all (\<lambda>c. startswith c ''column_'') cs"
    and "cs \<noteq> []"
    and "length ns \<le> length cs"
    and "distinct (map fst d)"
  shows "read_csv has_header projection (Some cs) (Some ns) (DtDict d) =
         Inr \<lparr>arg_columns = Names cs,
              arg_dtypes = DtDict (py_dict (map (\<lambda>(k, v). (original_name ns cs k, v)) d))\<rparr>"
  using assms
  by (simp add: read_csv_def check_autogenerated_ok projection_dtypes_not_list
        columns_dtypes_not_list new_columns_dtypes_by_name columns_or_projection_def)

text \<open>
  The instance \<open>columns=["a","b"]\<close>, \<open>new_columns=["x","y"]\<close>,
  \<open>dtypes={"x": Int64, "y": Utf8}\<close> with a header gives \<open>{"a": Int64, "b": Utf8}\<close>.
\<close>

theorem by_name_keyed_dtypes_renamed_witness:
  "read_csv True None (Some [''a'', ''b'']) (Some [''x'', ''y''])
       (DtDict [(''x'', Int64), (''y'', Utf8)]) =
   Inr \<lparr>arg_columns = Names [''a'', ''b''],
        arg_dtypes = DtDict [(''a'', Int64), (''b'', Utf8)]\<rparr>"
  using by_name_keyed_dtypes_renamed [of True "[''a'', ''b'']" "[''x'', ''y'']"
      "[(''x'', Int64), (''y'', Utf8)]" None]
  by (simp add: original_name_def py_dict_def)

section \<open>Headerless sources\<close>

lemma map_original_name_Nil:
  "map (\<lambda>(k, v). (original_name [] cs k, v)) d = d"
  by (simp add: original_name_Nil)

lemma new_columns_dtypes_autogenerated:
  assumes "distinct (map fst d)"
  shows "new_columns_dtypes False None None (Some ns) (DtDict d) =
         Inr (DtDict (py_dict (map (\<lambda>(k, v).
                (original_name ns
                   (map (\<lambda>n. ''column_'' @ py_str (int n)) [1 ..< length ns + 1]) k, v)) d)))"
proof (cases "ns = [] \<or> d = []")
  case True
  with assms show ?thesis
    by (auto simp: new_columns_dtypes_skip py_dict_distinct map_original_name_Nil)
next
  case False
  then show ?thesis
    by (simp add: new_columns_dtypes_def current_columns_of_def rename_keys_original_name
          del: upt_Suc)
qed

text \<open>
  Claim C7. Without a header and without a column selection, for a dict \<open>dtypes\<close> and new
  names \<open>new_columns\<close>, the reconciliation raises nothing and rewrites the keys of
  \<open>dtypes\<close> against the names \<open>column_1\<close>, ..., \<open>column_n\<close> in order, \<open>n\<close> the number of new
  names: a key that is the new name at position \<open>i\<close> (counted from 0) becomes
  \<open>column_(i+1)\<close>, any other key is kept.
\<close>

theorem headerless_dtypes_use_autogenerated_names:
  assumes "distinct (map fst d)"
  shows "read_csv False None None (Some ns) (DtDict d) =
         Inr \<lparr>arg_columns = NoColumns,
              arg_dtypes = DtDict (py_dict (map (\<lambda>(k, v).
                (original_name ns
                   (map (\<lambda>n. ''column_'' @ py_str (int n)) [1 ..< length ns + 1]) k, v)) d))\<rparr>"
  using assms
  by (simp add: read_csv_def check_autogenerated_def projection_dtypes_not_list
        columns_dtypes_not_list new_columns_dtypes_autogenerated columns_or_projection_def
        del: upt_Suc)

text \<open>
  The instance \<open>new_columns=["x","y","z"]\<close>, \<open>dtypes={"x": Int64}\<close> gives
  \<open>{"column_1": Int64}\<close>.
\<close>

theorem headerless_dtypes_use_autogenerated_names_witness:
  "read_csv False None None (Some [''x'', ''y'', ''z'']) (DtDict [(''x'', Int64)]) =
   Inr \<lparr>arg_columns = NoColumns, arg_dtypes = DtDict [(''column_1'', Int64)]\<rparr>"
proof -
  have "py_dict (map (\<lambda>(k, v).
          (original_name [''x'', ''y'', ''z'']
             (map (\<lambda>n. ''column_'' @ py_str (int n)) [1 ..< length [''x'', ''y'', ''z''] + 1]) k,
           v)) [(''x'', Int64)]) = [(''column_1'', Int64)]"
    by code_simp
  with headerless_dtypes_use_autogenerated_names [of "[(''x'', Int64)]" "[''x'', ''y'', ''z'']"]
  show ?thesis by simp
qed

lemma new_columns_dtypes_headerless_projection:
  assumes "p \<noteq> []" and "distinct (map fst d)"
  shows "new_columns_dtypes False (Some p) None (Some ns) (DtDict d) =
         Inr (DtDict (py_dict (map (\<lambda>(k, v).
                (original_name (take (length p) ns)
                   (map (\<lambda>column_idx. ''column_'' @ py_str (column_idx + 1)) p) k, v)) d)))"
proof (cases "ns = [] \<or> d = []")
  case True
  with assms(2) show ?thesis
    by (auto simp: new_columns_dtypes_skip py_dict_distinct map_original_name_Nil)
next
  case False
  with assms(1) show ?thesis
    by (simp add: new_columns_dtypes_def current_columns_of_def rename_keys_original_name)
qed

text \<open>
  Claim C10. Without a header, with a non-empty projection of indices and a dict
  \<open>dtypes\<close>, new names more numerous than the projection raise nothing: the keys of
  \<open>dtypes\<close> are rewritten against the first \<open>len(projection)\<close> new names only, the new
  name at position \<open>i\<close> standing for \<open>column_(projection[i]+1)\<close>; a key that is one of the
  further new names is kept as it is.
\<close>

theorem headerless_projection_ignores_extra_new_columns:
  assumes "p \<noteq> []" and "distinct (map fst d)" and "length p < length ns"
  shows "read_csv False (Some p) None (Some ns) (DtDict d) =
         Inr \<lparr>arg_columns = Indices p,
              arg_dtypes = DtDict (py_dict (map (\<lambda>(k, v).
                (original_name (take (length p) ns)
                   (map (\<lambda>column_idx. ''column_'' @ py_str (column_idx + 1)) p) k, v)) d))\<rparr>"
  using assms
  by (simp add: read_csv_def check_autogenerated_def projection_dtypes_not_list
        columns_dtypes_not_list new_columns_dtypes_headerless_projection
        columns_or_projection_def)

text \<open>
  The instance \<open>columns=[3, 10]\<close>, \<open>new_columns=["x","y","z"]\<close>,
  \<open>dtypes={"x": Int64, "z": Utf8}\<close>: \<open>"x"\<close> becomes \<open>"column_4"\<close>, \<open>"z"\<close> stays.
\<close>

theorem headerless_projection_ignores_extra_new_columns_witness:
  "read_csv False (Some [3, 10]) None (Some [''x'', ''y'', ''z''])
       (DtDict [(''x'', Int64), (''z'', Utf8)]) =
   Inr \<lparr>arg_columns = Indices [3, 10],
        arg_dtypes = DtDict [(''column_4'', Int64), (''z'', Utf8)]\<rparr>"
proof -
  have "py_dict (map (\<lambda>(k, v).
          (original_name (take (length [3, 10 :: int]) [''x'', ''y'', ''z''])
             (map (\<lambda>column_idx. ''column_'' @ py_str (column_idx + 1)) [3, 10]) k, v))
          [(''x'', Int64), (''z'', Utf8)]) = [(''column_4'', Int64), (''z'', Utf8)]"
    by code_simp
  with headerless_projection_ignores_extra_new_columns
         [of "[3, 10]" "[(''x'', Int64), (''z'', Utf8)]" "[''x'', ''y'', ''z'']"]
  show ?thesis by simp
qed

section \<open>Rejected arguments\<close>

lemma check_autogenerated_result:
  "check_autogenerated has_header columns =
     (if \<not> has_header \<and> \<not> list_all (\<lambda>c. startswith c ''column_'') (the_list columns)
      then Inl (ValueError msg_not_autogenerated) else Inr ())"
proof (cases "truthy columns")
  case True
  then show ?thesis
    by (simp add: check_autogenerated_def check_column_names_list_all)
next
  case False
  then have "the_list columns = []" by (cases columns) auto
  with False show ?thesis by (simp add: check_autogenerated_def)
qed

text \<open>
  Claim C5, as amended. Without a header, when names are selected and one of them does
  not start with \<open>column_\<close>, the reconciliation raises \<open>ValueError\<close> with the message of
  lines 198-201, whatever the other arguments are.
\<close>

theorem headerless_names_need_prefix:
  assumes "\<exists>c \<in> set cs. \<not> startswith c ''column_''"
  shows "read_csv False projection (Some cs) new_columns dtypes =
         Inl (ValueError msg_not_autogenerated)"
proof -
  from assms have "\<not> list_all (\<lambda>c. startswith c ''column_'') cs"
    by (simp add: list_all_iff)
  then show ?thesis
    by (simp add: read_csv_def check_autogenerated_result)
qed

theorem headerless_names_need_prefix_witness:
  "read_csv False None (Some [''column_1'', ''b'']) None DtNone =
   Inl (ValueError msg_not_autogenerated)"
  using headerless_names_need_prefix [of "[''column_1'', ''b'']" None None DtNone]
  by (simp add: startswith_def)

text \<open>
  The check is a prefix test only: \<open>column_x\<close> is not of the form
  \<open>column_<positive integer>\<close>, and is accepted.
\<close>

theorem headerless_names_pattern_counterexample:
  "\<not> is_synthesized_name ''column_x'' \<and>
   read_csv False None (Some [''column_x'']) None DtNone =
   Inr \<lparr>arg_columns = Names [''column_x''], arg_dtypes = DtNone\<rparr>"
  by (simp add: is_synthesized_name_def startswith_def read_csv_def check_autogenerated_def
        projection_dtypes_def columns_dtypes_def new_columns_dtypes_def
        columns_or_projection_def)

text \<open>
  Claim C2, as amended. When \<open>dtypes\<close> is a list with more entries than the non-empty
  projection, or than the non-empty list of selected names, the reconciliation raises
  \<open>ValueError\<close>: with the message of lines 273-275 and 289-291, unless the header is
  absent and a selected name does not start with \<open>column_\<close>, which is reported first.
\<close>

theorem more_dtypes_than_selected_columns:
  assumes "(truthy projection \<and> columns = None \<and> length (the_list projection) < length ds) \<or>
           (truthy columns \<and> projection = None \<and> length (the_list columns) < length ds)"
  shows "read_csv has_header projection columns new_columns (DtList ds) =
         Inl (ValueError
               (if \<not> has_header \<and> \<not> list_all (\<lambda>c. startswith c ''column_'') (the_list columns)
                then msg_not_autogenerated else msg_more_dtypes))"
  using assms
proof (elim disjE conjE)
  assume a: "truthy projection" "columns = None" "length (the_list projection) < length ds"
  then have "ds \<noteq> []" by auto
  with a show ?thesis
    by (simp add: read_csv_def check_autogenerated_result projection_dtypes_def)
next
  assume a: "truthy columns" "projection = None" "length (the_list columns) < length ds"
  then have "ds \<noteq> []" by auto
  with a show ?thesis
    by (simp add: read_csv_def check_autogenerated_result projection_dtypes_def
          columns_dtypes_def)
qed

theorem more_dtypes_than_selected_columns_witness:
  "read_csv True (Some [2, 0]) None None (DtList [Int64, Boolean, Float64]) =
   Inl (ValueError msg_more_dtypes)"
  using more_dtypes_than_selected_columns
          [of "Some [2, 0]" None "[Int64, Boolean, Float64]" True None]
  by simp

text \<open>
  A dict of dtypes with more entries than selected columns is not rejected: the length
  checks are under \<open>isinstance(dtypes, list)\<close>.
\<close>

theorem more_dtypes_keyed_counterexample:
  "length [''a''] < length [(''x'', Int64), (''y'', Utf8)] \<and>
   read_csv True None (Some [''a'']) None (DtDict [(''x'', Int64), (''y'', Utf8)]) =
   Inr \<lparr>arg_columns = Names [''a''],
        arg_dtypes = DtDict [(''x'', Int64), (''y'', Utf8)]\<rparr>"
  by (simp add: read_csv_def check_autogenerated_def projection_dtypes_def
        columns_dtypes_def new_columns_dtypes_def columns_or_projection_def)

text \<open>
  Claim C8, as amended. When names are selected, \<open>dtypes\<close> is a non-empty dict and
  \<open>new_columns\<close> is longer than the selection, the reconciliation raises \<open>ValueError\<close>:
  with the message of lines 306-309, unless the header is absent and a selected name
  does not start with \<open>column_\<close>, which is reported first.
\<close>

theorem more_new_columns_than_selected_names:
  assumes "cs \<noteq> []" and "d \<noteq> []" and "length cs < length ns"
  shows "read_csv has_header projection (Some cs) (Some ns) (DtDict d) =
         Inl (ValueError
               (if \<not> has_header \<and> \<not> list_all (\<lambda>c. startswith c ''column_'') cs
                then msg_not_autogenerated else msg_more_new_columns))"
proof -
  from assms have "ns \<noteq> []" by auto
  with assms show ?thesis
    by (simp add: read_csv_def check_autogenerated_result projection_dtypes_not_list
          columns_dtypes_not_list new_columns_dtypes_def current_columns_of_def)
qed

theorem more_new_columns_than_selected_names_witness:
  "read_csv True None (Some [''a'']) (Some [''x'', ''y'']) (DtDict [(''x'', Int64)]) =
   Inl (ValueError msg_more_new_columns)"
  using more_new_columns_than_selected_names
          [of "[''a'']" "[(''x'', Int64)]" "[''x'', ''y'']" True None]
  by simp

text \<open>
  With an empty dict of dtypes the block of lines 298-357 is skipped, and no error is
  raised for the longer list of new names.
\<close>

theorem more_new_columns_empty_dtypes_counterexample:
  "length [''a''] < length [''x'', ''y''] \<and>
   read_csv True None (Some [''a'']) (Some [''x'', ''y'']) (DtDict []) =
   Inr \<lparr>arg_columns = Names [''a''], arg_dtypes = DtDict []\<rparr>"
  by (simp add: read_csv_def check_autogenerated_def projection_dtypes_def
        columns_dtypes_def new_columns_dtypes_def columns_or_projection_def)

section \<open>A list of dtypes for selected names\<close>

lemma zip_as_positions:
  "length ds \<le> length cs \<Longrightarrow> zip cs ds = map (\<lambda>i. (cs ! i, ds ! i)) [0 ..< length ds]"
  by (rule nth_equalityI) simp_all

lemma distinct_keys_zip: "distinct cs \<Longrightarrow> distinct (map fst (zip cs ds))"
  by (simp add: map_fst_zip_take)

lemma keys_zip: "length ds \<le> length cs \<Longrightarrow> fst ` set (zip cs ds) = set (take (length ds) cs)"
proof -
  assume "length ds \<le> length cs"
  then have "map fst (zip cs ds) = take (length ds) cs"
    by (simp add: map_fst_zip_take min_def)
  then have "set (map fst (zip cs ds)) = set (take (length ds) cs)" by simp
  then show ?thesis by simp
qed

lemma original_name_not_new: "k \<notin> set ns \<Longrightarrow> original_name ns cs k = k"
  by (simp add: original_name_def last_position_None [THEN iffD2])

lemma new_columns_dtypes_keeps_original_keys:
  assumes "length (the_list new_columns) \<le> length cs"
    and "distinct (map fst z)"
    and "set (the_list new_columns) \<inter> fst ` set z = {}"
  shows "new_columns_dtypes has_header projection (Some cs) new_columns (DtDict z) =
         Inr (DtDict z)"
proof (cases new_columns)
  case None
  then show ?thesis by (simp add: new_columns_dtypes_def)
next
  case (Some ns)
  have "map (\<lambda>(k, v). (original_name ns cs k, v)) z = map (\<lambda>kv. kv) z"
  proof (rule map_cong [OF refl])
    fix kv assume "kv \<in> set z"
    with assms(3) Some have "fst kv \<notin> set ns" by auto
    then show "(case kv of (k, v) \<Rightarrow> (original_name ns cs k, v)) = kv"
      by (cases kv) (simp add: original_name_not_new)
  qed
  with assms(1,2) Some show ?thesis
    by (simp add: new_columns_dtypes_by_name py_dict_distinct)
qed

text \<open>
  Where the code does what the comment of lines 293-295 says. When distinct names are
  selected (without a header, names that start with \<open>column_\<close>), \<open>dtypes\<close> is a
  non-empty list not longer than the selection, and
  \<open>new_columns\<close> (if given) is not longer than the selection and contains none of the
  first \<open>len(dtypes)\<close> selected names, the reader receives a dict of exactly
  \<open>len(dtypes)\<close> entries, the \<open>i\<close>-th being \<open>columns[i]: dtypes[i]\<close>.
\<close>

lemma by_name_dtypes_list_becomes_dict:
  assumes "cs \<noteq> []" and "distinct cs"
    and "ds \<noteq> []" and "length ds \<le> length cs"
    and "has_header \<or> list_all (\<lambda>c. startswith c ''column_'') cs"
    and "length (the_list new_columns) \<le> length cs"
    and "set (the_list new_columns) \<inter> set (take (length ds) cs) = {}"
  shows "read_csv has_header None (Some cs) new_columns (DtList ds) =
         Inr \<lparr>arg_columns = Names cs,
              arg_dtypes = DtDict (map (\<lambda>i. (cs ! i, ds ! i)) [0 ..< length ds])\<rparr>"
proof -
  let ?z = "zip cs ds"
  have z: "py_dict ?z = ?z"
    using assms(2) by (simp add: py_dict_distinct distinct_keys_zip)
  have step2: "columns_dtypes (Some cs) (DtList ds) = Inr (DtDict ?z)"
    using assms(1,3,4) by (simp add: columns_dtypes_def z)
  have step3: "new_columns_dtypes has_header None (Some cs) new_columns (DtDict ?z) =
               Inr (DtDict ?z)"
    using assms(2,4,6,7)
    by (intro new_columns_dtypes_keeps_original_keys) (simp_all add: distinct_keys_zip keys_zip)
  have step1: "projection_dtypes None (DtList ds) = Inr (DtList ds)"
    by (simp add: projection_dtypes_def)
  have "read_csv has_header None (Some cs) new_columns (DtList ds) =
        Inr \<lparr>arg_columns = Names cs, arg_dtypes = DtDict ?z\<rparr>"
    using assms(1,5)
    by (simp add: read_csv_def check_autogenerated_ok step1 step2 step3
          columns_or_projection_def)
  then show ?thesis
    by (simp only: zip_as_positions [OF assms(4)])
qed

lemma by_name_dtypes_list_becomes_dict_instance:
  "read_csv True None (Some [''a'', ''b'', ''c'']) (Some [''x''])
       (DtList [Int64, Boolean]) =
   Inr \<lparr>arg_columns = Names [''a'', ''b'', ''c''],
        arg_dtypes = DtDict [(''a'', Int64), (''b'', Boolean)]\<rparr>"
proof -
  have "map (\<lambda>i. ([''a'', ''b'', ''c''] ! i, [Int64, Boolean] ! i))
          [0 ..< length [Int64, Boolean]] = [(''a'', Int64), (''b'', Boolean)]"
    by code_simp
  with by_name_dtypes_list_becomes_dict
         [of "[''a'', ''b'', ''c'']" "[Int64, Boolean]" True "Some [''x'']"]
  show ?thesis by simp
qed

text \<open>
  Claim C6 fails on the code when a new name is also one of the selected names. For a
  selection by name and a list \<open>dtypes\<close> of equal or shorter length the claim asks for a
  dict of exactly \<open>len(dtypes)\<close> entries \<open>columns[i]: dtypes[i]\<close>, and lines 287-296 build
  it; lines 351-357 then read its keys, which are selected names, as new names. With
  \<open>columns=["id","name"]\<close>, \<open>new_columns=["name","label"]\<close>, \<open>dtypes=[Int64, Utf8]\<close> and a
  header, the dict \<open>{"id": Int64, "name": Utf8}\<close> of lines 287-296 reaches the reader as
  \<open>{"id": Utf8}\<close>: one entry instead of two, and \<open>Utf8\<close> for the column that was given
  \<open>Int64\<close>.
\<close>

theorem by_name_dtypes_list_rekeyed_by_new_columns:
  "columns_dtypes (Some [''id'', ''name'']) (DtList [Int64, Utf8]) =
     Inr (DtDict [(''id'', Int64), (''name'', Utf8)]) \<and>
   read_csv True None (Some [''id'', ''name'']) (Some [''name'', ''label''])
       (DtList [Int64, Utf8]) =
     Inr \<lparr>arg_columns = Names [''id'', ''name''], arg_dtypes = DtDict [(''id'', Utf8)]\<rparr>"
  by code_simp

section \<open>Header present: a dict of dtypes keyed by new names\<close>

lemma keys_fill_prefix:
  assumes "distinct (map fst d)" and "length xs = length d"
    and "fst ` set d \<subseteq> set xs"
  shows "set xs = fst ` set d"
proof -
  have "card (fst ` set d) = length d"
    using assms(1) distinct_card [of "map fst d"] by simp
  moreover have "card (set xs) \<le> length d"
    using card_length [of xs] assms(2) by simp
  ultimately have "card (set xs) \<le> card (fst ` set d)" by simp
  with assms(3) show ?thesis
    by (metis List.finite_set card_seteq)
qed

lemma prefix_fills_keys:
  assumes "distinct (map fst d)" and "length xs = length d" and "distinct xs"
    and "set xs \<subseteq> fst ` set d"
  shows "set xs = fst ` set d"
proof -
  have "card (fst ` set d) = length d"
    using assms(1) distinct_card [of "map fst d"] by simp
  moreover have "card (set xs) = length d"
    using assms(2,3) distinct_card [of xs] by simp
  ultimately have "card (fst ` set d) \<le> card (set xs)" by simp
  with assms(4) show ?thesis
    by (metis List.finite_set card_seteq finite_imageI)
qed

lemma length_filter_full:
  "length (filter P xs) = length xs \<longleftrightarrow> (\<forall>x \<in> set xs. P x)"
proof
  assume "length (filter P xs) = length xs"
  then have "length (filter (\<lambda>x. \<not> P x) xs) = 0"
    using sum_length_filter_compl [of P xs] by simp
  then show "\<forall>x \<in> set xs. P x"
    by (simp add: filter_empty_conv)
next
  assume "\<forall>x \<in> set xs. P x"
  then show "length (filter P xs) = length xs" by simp
qed

lemma header_dtype_list_all_keys:
  assumes "distinct (map fst d)" and "length d \<le> length ns"
    and "fst ` set d \<subseteq> set (take (length d) ns)"
  shows "header_dtype_list ns d =
         DtList (map (\<lambda>n. the (map_of d n)) (take (length d) ns))"
proof -
  let ?xs = "take (length d) ns"
  have len: "length ?xs = length d" using assms(2) by simp
  have "set ?xs = fst ` set d"
    using keys_fill_prefix [OF assms(1) len assms(3)] .
  then have "filter (\<lambda>n. n \<in> fst ` set d) ?xs = ?xs" by simp
  then have "List.map_filter (map_of d) ?xs = map (\<lambda>n. the (map_of d n)) ?xs"
    by (simp only: map_filter_map_of)
  with len assms(2) show ?thesis
    by (simp add: header_dtype_list_def)
qed

lemma header_dtype_list_missing_key:
  assumes "distinct (map fst d)" and "length d \<le> length ns"
    and "distinct (take (length d) ns)"
    and "\<not> fst ` set d \<subseteq> set (take (length d) ns)"
  shows "header_dtype_list ns d = DtDict d"
proof -
  let ?xs = "take (length d) ns"
  have len: "length ?xs = length d" using assms(2) by simp
  have "length (List.map_filter (map_of d) ?xs) \<noteq> length d"
  proof
    assume "length (List.map_filter (map_of d) ?xs) = length d"
    then have "length (filter (\<lambda>n. n \<in> fst ` set d) ?xs) = length ?xs"
      by (simp only: map_filter_map_of length_map len)
    then have "set ?xs \<subseteq> fst ` set d"
      by (auto simp only: length_filter_full)
    from prefix_fills_keys [OF assms(1) len assms(3) this] assms(4)
    show False by simp
  qed
  then show ?thesis
    by (simp add: header_dtype_list_def)
qed

lemma new_columns_dtypes_header:
  "d \<noteq> [] \<Longrightarrow> ns \<noteq> [] \<Longrightarrow>
     new_columns_dtypes True None None (Some ns) (DtDict d) = Inr (header_dtype_list ns d)"
  by (simp add: new_columns_dtypes_def current_columns_of_def split: dtypes_arg.splits)

text \<open>
  Claim C4, as amended. With a header, no column selection, new names \<open>new_columns\<close> and
  a non-empty dict \<open>dtypes\<close> of at most \<open>len(new_columns)\<close> entries: when every key of
  \<open>dtypes\<close> occurs among the first \<open>len(dtypes)\<close> new names, the reader receives the
  list of the dtypes in the order of these new names, and no dict; when some key does
  not occur there and these first new names are pairwise distinct, the reader receives
  the dict unchanged.
\<close>

theorem header_dtypes_dict_becomes_list:
  assumes "distinct (map fst d)" and "d \<noteq> []" and "length d \<le> length ns"
    and "fst ` set d \<subseteq> set (take (length d) ns) \<or> distinct (take (length d) ns)"
  shows "read_csv True None None (Some ns) (DtDict d) =
         Inr \<lparr>arg_columns = NoColumns,
              arg_dtypes =
                (if fst ` set d \<subseteq> set (take (length d) ns)
                 then DtList (map (\<lambda>n. the (map_of d n)) (take (length d) ns))
                 else DtDict d)\<rparr>"
proof -
  from assms(2,3) have ns: "ns \<noteq> []" by auto
  have "header_dtype_list ns d =
          (if fst ` set d \<subseteq> set (take (length d) ns)
           then DtList (map (\<lambda>n. the (map_of d n)) (take (length d) ns))
           else DtDict d)"
    using assms(4) header_dtype_list_all_keys [OF assms(1,3)]
      header_dtype_list_missing_key [OF assms(1,3)]
    by auto
  then show ?thesis
    by (simp add: read_csv_def check_autogenerated_def projection_dtypes_not_list
          columns_dtypes_not_list new_columns_dtypes_header [OF assms(2) ns]
          columns_or_projection_def)
qed

text \<open>
  The instance \<open>new_columns=["x","y"]\<close>, \<open>dtypes={"x": Int64, "y": Utf8}\<close> gives the list
  \<open>[Int64, Utf8]\<close>; with \<open>dtypes={"y": Int64, "z": Utf8}\<close> the dict is passed on.
\<close>

theorem header_dtypes_dict_becomes_list_witness:
  "read_csv True None None (Some [''x'', ''y'']) (DtDict [(''x'', Int64), (''y'', Utf8)]) =
     Inr \<lparr>arg_columns = NoColumns, arg_dtypes = DtList [Int64, Utf8]\<rparr> \<and>
   read_csv True None None (Some [''x'', ''y'']) (DtDict [(''y'', Int64), (''z'', Utf8)]) =
     Inr \<lparr>arg_columns = NoColumns, arg_dtypes = DtDict [(''y'', Int64), (''z'', Utf8)]\<rparr>"
  using header_dtypes_dict_becomes_list [of "[(''x'', Int64), (''y'', Utf8)]" "[''x'', ''y'']"]
    header_dtypes_dict_becomes_list [of "[(''y'', Int64), (''z'', Utf8)]" "[''x'', ''y'']"]
  by simp

text \<open>
  An empty dict satisfies the premises of claim C4 as stated (no entry, hence every key
  in the prefix), but line 298 skips the block for it: the reader receives the empty
  dict, not a list.
\<close>

theorem header_dtypes_empty_dict_counterexample:
  "length ([] :: (string \<times> PolarsDataType) list) \<le> length [''x''] \<and>
   fst ` set ([] :: (string \<times> PolarsDataType) list) \<subseteq> set (take 0 [''x'']) \<and>
   read_csv True None None (Some [''x'']) (DtDict []) =
   Inr \<lparr>arg_columns = NoColumns, arg_dtypes = DtDict []\<rparr>"
  by (simp add: read_csv_def check_autogenerated_def projection_dtypes_def
        columns_dtypes_def new_columns_dtypes_def columns_or_projection_def)

text \<open>
  Outside the amended claim: a repeated new name. The test of line 348 compares
  lengths, so \<open>new_columns=["x","x"]\<close> with \<open>dtypes={"x": Int64, "y": Utf8}\<close> gives the list
  \<open>[Int64, Int64]\<close> although \<open>"y"\<close> is not among the new names.
\<close>

lemma header_dtypes_repeated_new_name:
  "read_csv True None None (Some [''x'', ''x'']) (DtDict [(''x'', Int64), (''y'', Utf8)]) =
   Inr \<lparr>arg_columns = NoColumns, arg_dtypes = DtList [Int64, Int64]\<rparr>"
  by code_simp

section \<open>A list of dtypes for a projection\<close>

lemma py_max_Max: "p \<noteq> [] \<Longrightarrow> py_max p = Max (set p)"
proof (cases p)
  case Nil
  assume "p \<noteq> []"
  with Nil show ?thesis by simp
next
  case (Cons a rest)
  then show ?thesis using Max.set_eq_fold [of a rest] by simp
qed

lemma list_setitem_in_range:
  "0 \<le> c \<Longrightarrow> c < int (length xs) \<Longrightarrow> list_setitem xs c v = Inr (xs[nat c := v])"
  by (simp add: list_setitem_def)

lemma zip_drop_step:
  "idx < length ds \<Longrightarrow>
     zip (c # rest) (drop idx ds) = (c, ds ! idx) # zip rest (drop (Suc idx) ds)"
  by (simp add: Cons_nth_drop_Suc [symmetric])

lemma assign_dtypes_spec:
  assumes "distinct rest" and "\<forall>c \<in> set rest. 0 \<le> c \<and> c < int (length dl)"
  shows "\<exists>dl'. assign_dtypes idx rest ds dl = Inr dl' \<and> length dl' = length dl \<and>
           (\<forall>(c, t) \<in> set (zip rest (drop idx ds)). dl' ! nat c = t) \<and>
           (\<forall>j < length dl. int j \<notin> fst ` set (zip rest (drop idx ds)) \<longrightarrow> dl' ! j = dl ! j)"
  using assms
proof (induction rest arbitrary: idx dl)
  case Nil
  then show ?case by simp
next
  case (Cons c rest)
  from Cons.prems have c: "0 \<le> c" "c < int (length dl)" and fresh: "c \<notin> set rest"
    and d: "distinct rest" by auto
  show ?case
  proof (cases "idx < length ds")
    case True
    let ?dl1 = "dl[nat c := ds ! idx]"
    from Cons.prems have "\<forall>c' \<in> set rest. 0 \<le> c' \<and> c' < int (length ?dl1)" by simp
    from Cons.IH [OF d this, of "Suc idx"] obtain dl' where
      run: "assign_dtypes (Suc idx) rest ds ?dl1 = Inr dl'" and
      len: "length dl' = length dl" and
      hit: "\<forall>(c', t) \<in> set (zip rest (drop (Suc idx) ds)). dl' ! nat c' = t" and
      keep: "\<forall>j < length dl. int j \<notin> fst ` set (zip rest (drop (Suc idx) ds))
               \<longrightarrow> dl' ! j = ?dl1 ! j"
      by auto
    have "int (nat c) \<notin> fst ` set (zip rest (drop (Suc idx) ds))"
      using fresh c by (auto dest: set_zip_leftD)
    moreover have "nat c < length dl" using c by simp
    ultimately have head: "dl' ! nat c = ds ! idx"
      using keep by simp
    have keep': "dl' ! j = dl ! j"
      if "j < length dl" "int j \<noteq> c" "int j \<notin> fst ` set (zip rest (drop (Suc idx) ds))" for j
    proof -
      from that(2) c(1) have "nat c \<noteq> j" by auto
      with keep that show ?thesis by simp
    qed
    have "assign_dtypes idx (c # rest) ds dl = Inr dl'"
      using True c run by (simp add: list_setitem_in_range)
    with len head hit keep' show ?thesis
      by (auto simp: zip_drop_step [OF True])
  next
    case False
    then have e1: "drop (Suc idx) ds = []" and e2: "drop idx ds = []"
      by simp_all
    from Cons.prems have "\<forall>c' \<in> set rest. 0 \<le> c' \<and> c' < int (length dl)" by simp
    from Cons.IH [OF d this, of "Suc idx"] obtain dl' where
      "assign_dtypes (Suc idx) rest ds dl = Inr dl'" "length dl' = length dl"
      "\<forall>j < length dl. dl' ! j = dl ! j"
      by (auto simp: e1)
    with False show ?thesis
      by (simp add: e2)
  qed
qed


lemma assign_dtypes_projection:
  assumes "p \<noteq> []" and "distinct p" and "\<forall>i \<in> set p. 0 \<le> i" and "length ds \<le> length p"
  shows "\<exists>dl. assign_dtypes 0 p ds (list_times Utf8 (py_max p + 1)) = Inr dl \<and>
           length dl = nat (Max (set p)) + 1 \<and>
           (\<forall>i < length ds. dl ! nat (p ! i) = ds ! i) \<and>
           (\<forall>j < length dl. int j \<notin> set (take (length ds) p) \<longrightarrow> dl ! j = Utf8)"
proof -
  let ?init = "list_times Utf8 (py_max p + 1)"
  have max_nonneg: "0 \<le> Max (set p)"
    using assms(1,3) by (simp add: Max_ge_iff) (meson all_not_in_conv set_empty)
  have len_init: "length ?init = nat (Max (set p)) + 1"
    using max_nonneg by (simp add: list_times_def py_max_Max [OF assms(1)] nat_add_distrib)
  have range: "\<forall>c \<in> set p. 0 \<le> c \<and> c < int (length ?init)"
  proof
    fix c assume "c \<in> set p"
    then have "c \<le> Max (set p)" by simp
    moreover have "int (length ?init) = Max (set p) + 1"
      using max_nonneg by (simp add: len_init)
    moreover have "0 \<le> c" using assms(3) \<open>c \<in> set p\<close> by simp
    ultimately show "0 \<le> c \<and> c < int (length ?init)" by linarith
  qed
  from assign_dtypes_spec [OF assms(2) range, of 0 ds] obtain dl where
    run: "assign_dtypes 0 p ds ?init = Inr dl" and
    len: "length dl = length ?init" and
    hit: "\<forall>(c, t) \<in> set (zip p ds). dl ! nat c = t" and
    keep: "\<forall>j < length ?init. int j \<notin> fst ` set (zip p ds) \<longrightarrow> dl ! j = ?init ! j"
    by auto
  have "dl ! nat (p ! i) = ds ! i" if "i < length ds" for i
  proof -
    from that assms(4) have "(p ! i, ds ! i) \<in> set (zip p ds)"
      by (auto simp: set_zip)
    with hit show ?thesis by auto
  qed
  moreover have "dl ! j = Utf8" if "j < length dl" "int j \<notin> set (take (length ds) p)" for j
  proof -
    from that(2) have "int j \<notin> fst ` set (zip p ds)"
      by (simp add: keys_zip [OF assms(4)])
    with keep that(1) len have "dl ! j = ?init ! j" by simp
    also have "\<dots> = Utf8"
      using that(1) len by (simp add: list_times_def)
    finally show ?thesis .
  qed
  ultimately show ?thesis using run len len_init by auto
qed

text \<open>
  Claim C1, as amended. For a non-empty projection of distinct non-negative indices
  and a non-empty list \<open>dtypes\<close> not longer than the projection, the reconciliation
  raises nothing and hands the reader a list of length \<open>max(projection) + 1\<close> that holds
  \<open>dtypes[i]\<close> at position \<open>projection[i]\<close> for every \<open>i < len(dtypes)\<close> and \<open>Utf8\<close> at every
  other position.
\<close>

theorem projection_dtypes_list_is_spread:
  assumes "p \<noteq> []" and "distinct p" and "\<forall>i \<in> set p. 0 \<le> i"
    and "ds \<noteq> []" and "length ds \<le> length p"
  shows "\<exists>dl. read_csv has_header (Some p) None new_columns (DtList ds) =
                Inr \<lparr>arg_columns = Indices p, arg_dtypes = DtList dl\<rparr> \<and>
              length dl = nat (Max (set p)) + 1 \<and>
              (\<forall>i < length ds. dl ! nat (p ! i) = ds ! i) \<and>
              (\<forall>j < length dl. int j \<notin> set (take (length ds) p) \<longrightarrow> dl ! j = Utf8)"
proof -
  from assign_dtypes_projection [OF assms(1,2,3,5)] obtain dl where
    run: "assign_dtypes 0 p ds (list_times Utf8 (py_max p + 1)) = Inr dl" and
    props: "length dl = nat (Max (set p)) + 1"
      "\<forall>i < length ds. dl ! nat (p ! i) = ds ! i"
      "\<forall>j < length dl. int j \<notin> set (take (length ds) p) \<longrightarrow> dl ! j = Utf8"
    by blast
  have "projection_dtypes (Some p) (DtList ds) = Inr (DtList dl)"
    using assms(1,4,5) run by (simp add: projection_dtypes_def)
  then have "read_csv has_header (Some p) None new_columns (DtList ds) =
             Inr \<lparr>arg_columns = Indices p, arg_dtypes = DtList dl\<rparr>"
    by (simp add: read_csv_def check_autogenerated_def columns_dtypes_def
          new_columns_dtypes_def columns_or_projection_def)
  with props show ?thesis by blast
qed

theorem projection_dtypes_list_is_spread_witness:
  "\<exists>dl. read_csv True (Some [2, 0]) None None (DtList [Int64]) =
           Inr \<lparr>arg_columns = Indices [2, 0], arg_dtypes = DtList dl\<rparr> \<and>
         length dl = nat (Max (set [2, 0])) + 1 \<and>
         (\<forall>i < length [Int64]. dl ! nat ([2, 0] ! i) = [Int64] ! i) \<and>
         (\<forall>j < length dl. int j \<notin> set (take (length [Int64]) [2, 0]) \<longrightarrow> dl ! j = Utf8)"
  by (rule projection_dtypes_list_is_spread) simp_all

text \<open>
  An empty list of dtypes is left as it is by the test of line 271: the reader receives
  \<open>[]\<close>, not a list of \<open>max(projection) + 1\<close> entries \<open>Utf8\<close>.
\<close>

theorem projection_dtypes_empty_list_counterexample:
  "length ([] :: PolarsDataType list) \<le> length [2 :: int] \<and>
   read_csv True (Some [2]) None None (DtList []) =
     Inr \<lparr>arg_columns = Indices [2], arg_dtypes = DtList []\<rparr> \<and>
   length ([] :: PolarsDataType list) \<noteq> nat (Max (set [2])) + 1"
  by (simp add: read_csv_def check_autogenerated_def projection_dtypes_def
        columns_dtypes_def new_columns_dtypes_def columns_or_projection_def)

end
